theory Spec2Isabelle
  imports Main "HOL-Library.Word"
begin

section \<open>Values exchanged with the gateway\<close>

text \<open>
  A Python \<open>str\<close> is modelled as a \<open>string\<close> whose characters stand for the code points
  0..255. On these code points the regular-expression class \<open>\d\<close> is exactly the ASCII
  digits, and the table keys below are ASCII.

  \<open>response.json()\<close> yields a Python value built from \<open>None\<close>, booleans, integers,
  strings, lists and dictionaries. A dictionary is an association list read with
  \<open>map_of\<close>. Floating-point numbers are left out of the value type.
\<close>

datatype json =
    JNull
  | JBool bool
  | JInt int
  | JStr string
  | JList "json list"
  | JDict "(string \<times> json) list"

text \<open>Exceptions of the source that no handler of \<open>app.py\<close> catches.\<close>

datatype exn = KeyError | AttributeError | TypeError

text \<open>Python truthiness, as used by \<open>if not access_token\<close>.\<close>

fun truthy :: "json \<Rightarrow> bool" where
  "truthy JNull = False"
| "truthy (JBool b) = b"
| "truthy (JInt i) = (i \<noteq> 0)"
| "truthy (JStr s) = (s \<noteq> [])"
| "truthy (JList xs) = (xs \<noteq> [])"
| "truthy (JDict kvs) = (kvs \<noteq> [])"

text \<open>
  \<open>value.get(key)\<close>: a dictionary answers with the stored value or \<open>None\<close>; every other
  value has no attribute \<open>get\<close>.
\<close>

fun dict_get :: "json \<Rightarrow> string \<Rightarrow> exn + json" where
  "dict_get (JDict kvs) k = Inr (case map_of kvs k of None \<Rightarrow> JNull | Some v \<Rightarrow> v)"
| "dict_get _ k = Inl AttributeError"

text \<open>
  What lines 36-38 and 139-140 obtain from the network: either a
  \<open>requests.RequestException\<close> is raised (by the request itself, by
  \<open>raise_for_status\<close> on the token request, or by \<open>response.json()\<close>), or the parsed
  body is at hand.
\<close>

datatype http_outcome = RequestException | JsonBody json

text \<open>
  A \<open>datetime\<close> is a point on the time line counted in microseconds, a \<open>timedelta\<close> a
  difference of two such points; the bounded range of Python's \<open>datetime\<close> is not part of
  the model.
\<close>

type_synonym datetime = int

definition timedelta_days :: "int \<Rightarrow> int" where
  "timedelta_days d = d * 86400000000"

section \<open>The payment module\<close>

record tier_details =
  price :: int
  limit :: "int option"

definition SUBSCRIPTION_TIERS :: "string \<rightharpoonup> tier_details" where
  "SUBSCRIPTION_TIERS = map_of
     [(''starter'', \<lparr>price = 100, limit = Some 10\<rparr>),
      (''pro'', \<lparr>price = 300, limit = Some 100\<rparr>),
      (''enterprise'', \<lparr>price = 500, limit = None\<rparr>)]"

definition MAX_BRANCHES_PER_ACTION :: int where
  "MAX_BRANCHES_PER_ACTION = 10"

definition GRACE_PERIOD_DAYS :: int where
  "GRACE_PERIOD_DAYS = 7"

record payment_module =
  consumer_key :: string
  consumer_secret :: string
  shortcode :: string
  passkey :: string
  callback_url :: string
  token_url :: string
  stk_push_url :: string
  failed_payment_attempts :: int
  grace_period_end :: "datetime option"

text \<open>The constructor \<open>__init__\<close>.\<close>

definition PaymentModule :: "string \<Rightarrow> string \<Rightarrow> string \<Rightarrow> string \<Rightarrow> string \<Rightarrow> payment_module" where
  "PaymentModule ck cs sc pk cb =
     \<lparr>consumer_key = ck, consumer_secret = cs, shortcode = sc, passkey = pk,
      callback_url = cb,
      token_url = ''https://sandbox.safaricom.co.ke/oauth/v1/generate?grant_type=client_credentials'',
      stk_push_url = ''https://sandbox.safaricom.co.ke/mpesa/stkpush/v1/processrequest'',
      failed_payment_attempts = 0,
      grace_period_end = None\<rparr>"

record payload =
  BusinessShortCode :: string
  Password :: string
  Timestamp :: string
  TransactionType :: string
  Amount :: int
  PartyA :: string
  PartyB :: string
  PhoneNumber :: string
  CallBackURL :: string
  AccountReference :: string
  TransactionDesc :: string

text \<open>
  The lines the source prints, one constructor per \<open>print\<close> statement, carrying the
  values the message interpolates.
\<close>

datatype notice =
    NoAccessTokenFound json
  | AccessTokenRetrieved json
  | ErrorFetchingAccessToken
  | InvalidPhoneNumberFormat
  | TooManyBranchesAtOnce int
  | PlanAllowsMaximum string int
  | InvalidSubscriptionTier string
  | FailedToGetAccessToken
  | StkPushResponse json
  | PaymentInitiatedSuccessfully
  | ErrorInitiatingPayment
  | GracePeriodStarted int
  | RetryUntil datetime
  | GracePeriodExpired

text \<open>
  What a call does to the outside world, in order: lines printed and requests sent. The
  \<open>Authorization\<close> header of the POST is \<open>Bearer\<close> followed by the token; the event
  keeps the token.
\<close>

datatype event =
    Print notice
  | HttpGet string string string
  | HttpPost string json payload

section \<open>Strings\<close>

definition is_digit :: "char \<Rightarrow> bool" where
  "is_digit c = (48 \<le> (of_char c :: nat) \<and> (of_char c :: nat) \<le> 57)"

definition is_upper :: "char \<Rightarrow> bool" where
  "is_upper c = (65 \<le> (of_char c :: nat) \<and> (of_char c :: nat) \<le> 90)"

definition is_lower :: "char \<Rightarrow> bool" where
  "is_lower c = (97 \<le> (of_char c :: nat) \<and> (of_char c :: nat) \<le> 122)"

definition to_lower :: "char \<Rightarrow> char" where
  "to_lower c = (if is_upper c then char_of (of_char c + (32::nat)) else c)"

definition to_upper :: "char \<Rightarrow> char" where
  "to_upper c = (if is_lower c then char_of (of_char c - (32::nat)) else c)"

text \<open>
  \<open>str.lower\<close> and \<open>str.capitalize\<close> on ASCII letters. The source applies both only
  after the lookup of line 76 has succeeded, that is to keys of the tier table.
\<close>

definition lower :: "string \<Rightarrow> string" where
  "lower s = map to_lower s"

fun capitalize :: "string \<Rightarrow> string" where
  "capitalize [] = []"
| "capitalize (c # cs) = to_upper c # map to_lower cs"

text \<open>\<open>str\<close> of an integer, as an f-string formats it.\<close>

function str_nat :: "nat \<Rightarrow> string" where
  "str_nat n =
     (if n < 10 then [char_of (48 + n)]
      else str_nat (n div 10) @ [char_of (48 + n mod 10)])"
  by pat_completeness auto
termination
  by (relation "measure id") auto

definition str_int :: "int \<Rightarrow> string" where
  "str_int i = (if i < 0 then CHR ''-'' # str_nat (nat (- i)) else str_nat (nat i))"

section \<open>Validation\<close>

text \<open>
  The pattern \<open>^2547\d{8}$\<close> applied with \<open>match\<close>: the literal, eight digits, and
  \<open>$\<close>, which in Python holds at the end of the string and also just before a newline
  that ends the string.
\<close>

fun match_literal :: "string \<Rightarrow> string \<Rightarrow> string option" where
  "match_literal [] s = Some s"
| "match_literal (p # ps) [] = None"
| "match_literal (p # ps) (c # cs) = (if p = c then match_literal ps cs else None)"

fun match_digits :: "nat \<Rightarrow> string \<Rightarrow> string option" where
  "match_digits 0 s = Some s"
| "match_digits (Suc n) [] = None"
| "match_digits (Suc n) (c # cs) = (if is_digit c then match_digits n cs else None)"

definition match_dollar :: "string \<Rightarrow> bool" where
  "match_dollar s = (s = [] \<or> s = [CHR 0x0A])"

definition pattern_match :: "string \<Rightarrow> bool" where
  "pattern_match s =
     (case match_literal ''2547'' s of
        None \<Rightarrow> False
      | Some r \<Rightarrow>
          (case match_digits 8 r of
             None \<Rightarrow> False
           | Some r' \<Rightarrow> match_dollar r'))"

definition validate_phone_number :: "string \<Rightarrow> event list \<times> bool" where
  "validate_phone_number phone_number =
     (if \<not> pattern_match phone_number
      then ([Print InvalidPhoneNumberFormat], False)
      else ([], True))"

definition validate_branch_limit :: "string \<Rightarrow> int \<Rightarrow> event list \<times> (exn + bool)" where
  "validate_branch_limit subscription_tier num_branches =
     (if num_branches > MAX_BRANCHES_PER_ACTION
      then ([Print (TooManyBranchesAtOnce MAX_BRANCHES_PER_ACTION)], Inr False)
      else
        (case SUBSCRIPTION_TIERS subscription_tier of
           None \<Rightarrow> ([], Inl KeyError)
         | Some details \<Rightarrow>
             (case limit details of
                Some tier_limit \<Rightarrow>
                  if num_branches > tier_limit
                  then ([Print (PlanAllowsMaximum (capitalize subscription_tier) tier_limit)],
                        Inr False)
                  else ([], Inr True)
              | None \<Rightarrow> ([], Inr True))))"

section \<open>Password of the push request\<close>

type_synonym byte = "8 word"

text \<open>
  \<open>str.encode()\<close>: UTF-8. A code point below 128 is one byte, a code point from 128 to
  255 is two bytes.
\<close>

fun utf8_encode :: "string \<Rightarrow> byte list" where
  "utf8_encode [] = []"
| "utf8_encode (c # cs) =
     (if (of_char c :: nat) < 128 then [of_nat (of_char c)]
      else [of_nat (192 + of_char c div 64), of_nat (128 + of_char c mod 64)])
     @ utf8_encode cs"

text \<open>The inverse direction, \<open>bytes.decode('utf-8')\<close>, on the same code points.\<close>

fun utf8_decode :: "byte list \<Rightarrow> string option" where
  "utf8_decode [] = Some []"
| "utf8_decode [b] = (if unat b < 128 then Some [char_of (unat b)] else None)"
| "utf8_decode (b # b2 # bs) =
     (if unat b < 128 then map_option (\<lambda>r. char_of (unat b) # r) (utf8_decode (b2 # bs))
      else if (unat b = 194 \<or> unat b = 195) \<and> 128 \<le> unat b2 \<and> unat b2 < 192
      then map_option (\<lambda>r. char_of ((unat b - 192) * 64 + (unat b2 - 128)) # r) (utf8_decode bs)
      else None)"

text \<open>
  \<open>base64.b64encode\<close> (RFC 4648, standard alphabet, padded): three bytes are one 24-bit
  number, written as four digits of base 64.
\<close>

definition b64_alphabet :: string where
  "b64_alphabet = ''ABCDEFGHIJKLMNOPQRSTUVWXYZabcdefghijklmnopqrstuvwxyz0123456789+/''"

definition b64_char :: "nat \<Rightarrow> char" where
  "b64_char n = b64_alphabet ! n"

definition b64_value :: "char \<Rightarrow> nat option" where
  "b64_value c = map_of (zip b64_alphabet [0..<64]) c"

fun b64encode :: "byte list \<Rightarrow> string" where
  "b64encode (a # b # c # bs) =
     (let n = unat a * 65536 + unat b * 256 + unat c
      in [b64_char (n div 262144), b64_char (n div 4096 mod 64),
          b64_char (n div 64 mod 64), b64_char (n mod 64)])
     @ b64encode bs"
| "b64encode [a, b] =
     (let n = unat a * 65536 + unat b * 256
      in [b64_char (n div 262144), b64_char (n div 4096 mod 64),
          b64_char (n div 64 mod 64), CHR ''=''])"
| "b64encode [a] =
     (let n = unat a * 65536
      in [b64_char (n div 262144), b64_char (n div 4096 mod 64), CHR ''='', CHR ''=''])"
| "b64encode [] = []"

text \<open>
  \<open>base64.b64decode\<close> on well-formed input: groups of four characters, padding only in
  the last group. Input that is not well formed has no result here.
\<close>

fun b64decode :: "string \<Rightarrow> byte list option" where
  "b64decode [] = Some []"
| "b64decode (p # q # r # s # rest) =
     (case (b64_value p, b64_value q) of
        (Some vp, Some vq) \<Rightarrow>
          if rest = [] \<and> r = CHR ''='' \<and> s = CHR ''=''
          then Some [of_nat ((vp * 262144 + vq * 4096) div 65536)]
          else
            (case b64_value r of
               None \<Rightarrow> None
             | Some vr \<Rightarrow>
                 if rest = [] \<and> s = CHR ''=''
                 then
                   (let n = vp * 262144 + vq * 4096 + vr * 64
                    in Some [of_nat (n div 65536), of_nat (n div 256 mod 256)])
                 else
                   (case b64_value s of
                      None \<Rightarrow> None
                    | Some vs \<Rightarrow>
                        (let n = vp * 262144 + vq * 4096 + vr * 64 + vs
                         in map_option
                              (\<lambda>bs. of_nat (n div 65536) # of_nat (n div 256 mod 256)
                                       # of_nat (n mod 256) # bs)
                              (b64decode rest))))
      | _ \<Rightarrow> None)"
| "b64decode _ = None"

text \<open>
  \<open>generate_password\<close>: the f-string joins the three strings; the base64 text is ASCII,
  so its \<open>decode('utf-8')\<close> keeps every character.
\<close>

definition generate_password :: "payment_module \<Rightarrow> string \<Rightarrow> string" where
  "generate_password self timestamp =
     (let data_to_encode = shortcode self @ passkey self @ timestamp
      in b64encode (utf8_encode data_to_encode))"

section \<open>Access token\<close>

definition get_access_token :: "payment_module \<Rightarrow> http_outcome \<Rightarrow> event list \<times> (exn + json)" where
  "get_access_token self outcome =
     (let request = HttpGet (token_url self) (consumer_key self) (consumer_secret self)
      in case outcome of
           RequestException \<Rightarrow> ([request, Print ErrorFetchingAccessToken], Inr JNull)
         | JsonBody body \<Rightarrow>
             (case dict_get body ''access_token'' of
                Inl e \<Rightarrow> ([request], Inl e)
              | Inr access_token \<Rightarrow>
                  if \<not> truthy access_token
                  then ([request, Print (NoAccessTokenFound body)], Inr access_token)
                  else ([request, Print (AccessTokenRetrieved body)], Inr access_token)))"

section \<open>Failure policy\<close>

text \<open>
  \<open>handle_payment_failure\<close> reads the clock once, in whichever branch it takes;
  \<open>now\<close> is that reading. The counter is incremented before the comparison that can
  raise \<open>TypeError\<close> on an absent deadline.
\<close>

definition handle_payment_failure ::
  "datetime \<Rightarrow> payment_module \<Rightarrow> payment_module \<times> event list \<times> (exn + unit)" where
  "handle_payment_failure now self =
     (let self1 = self\<lparr>failed_payment_attempts := failed_payment_attempts self + 1\<rparr>
      in if failed_payment_attempts self1 = 1
         then (self1\<lparr>grace_period_end := Some (now + timedelta_days GRACE_PERIOD_DAYS)\<rparr>,
               [Print (GracePeriodStarted GRACE_PERIOD_DAYS)], Inr ())
         else
           (case grace_period_end self1 of
              None \<Rightarrow> (self1, [], Inl TypeError)
            | Some deadline \<Rightarrow>
                if now < deadline
                then (self1, [Print (RetryUntil deadline)], Inr ())
                else (self1, [Print GracePeriodExpired], Inr ())))"

section \<open>Initiating a payment\<close>

text \<open>
  What one call of \<open>initiate_payment\<close> meets outside the program: the outcome of the
  token request, the clock formatted by \<open>strftime('%Y%m%d%H%M%S')\<close> at line 116, the
  outcome of the push request, and the clock read by \<open>handle_payment_failure\<close>.
\<close>

record env =
  token_response :: http_outcome
  timestamp_now :: string
  stk_response :: http_outcome
  failure_now :: datetime

text \<open>The end of the \<open>try\<close> block once the failure handler has run.\<close>

definition after_failure ::
  "payment_module \<times> event list \<times> (exn + unit) \<Rightarrow> event list \<Rightarrow> json option
   \<Rightarrow> payment_module \<times> event list \<times> (exn + json option)" where
  "after_failure handled out returned =
     (case handled of
        (self', out', Inl e) \<Rightarrow> (self', out @ out', Inl e)
      | (self', out', Inr u) \<Rightarrow> (self', out @ out', Inr returned))"

definition initiate_payment ::
  "payment_module \<Rightarrow> env \<Rightarrow> string \<Rightarrow> string \<Rightarrow> int
   \<Rightarrow> payment_module \<times> event list \<times> (exn + json option)" where
  "initiate_payment self e phone_number subscription_tier num_branches =
     (case validate_phone_number phone_number of
        (out1, False) \<Rightarrow> (self, out1, Inr None)
      | (out1, True) \<Rightarrow>
     (case validate_branch_limit subscription_tier num_branches of
        (out2, Inl err) \<Rightarrow> (self, out1 @ out2, Inl err)
      | (out2, Inr False) \<Rightarrow> (self, out1 @ out2, Inr None)
      | (out2, Inr True) \<Rightarrow>
     (case SUBSCRIPTION_TIERS (lower subscription_tier) of
        None \<Rightarrow>
          (self, out1 @ out2 @ [Print (InvalidSubscriptionTier subscription_tier)], Inr None)
      | Some details \<Rightarrow>
     (let base_price = price details;
          additional_branch_fee = num_branches * 100;
          total_amount = base_price + additional_branch_fee;
          account_reference = ''Vendor_'' @ phone_number;
          transaction_desc = capitalize subscription_tier @ '' subscription with ''
                             @ str_int num_branches @ '' branches''
      in case get_access_token self (token_response e) of
           (out3, Inl err) \<Rightarrow> (self, out1 @ out2 @ out3, Inl err)
         | (out3, Inr access_token) \<Rightarrow>
             if \<not> truthy access_token
             then (self, out1 @ out2 @ out3 @ [Print FailedToGetAccessToken], Inr None)
             else
               (let timestamp = timestamp_now e;
                    password = generate_password self timestamp;
                    request = HttpPost (stk_push_url self) access_token
                      \<lparr>BusinessShortCode = shortcode self,
                       Password = password,
                       Timestamp = timestamp,
                       TransactionType = ''CustomerBuyGoodsOnline'',
                       Amount = total_amount,
                       PartyA = phone_number,
                       PartyB = shortcode self,
                       PhoneNumber = phone_number,
                       CallBackURL = callback_url self,
                       AccountReference = account_reference,
                       TransactionDesc = transaction_desc\<rparr>;
                    out4 = out1 @ out2 @ out3 @ [request]
                in case stk_response e of
                     RequestException \<Rightarrow>
                       after_failure (handle_payment_failure (failure_now e) self)
                         (out4 @ [Print ErrorInitiatingPayment]) None
                   | JsonBody response_data \<Rightarrow>
                       (case dict_get response_data ''ResponseCode'' of
                          Inl err \<Rightarrow>
                            (self, out4 @ [Print (StkPushResponse response_data)], Inl err)
                        | Inr code \<Rightarrow>
                            if code \<noteq> JStr ''0''
                            then after_failure (handle_payment_failure (failure_now e) self)
                                   (out4 @ [Print (StkPushResponse response_data)])
                                   (Some response_data)
                            else (self,
                                  out4 @ [Print (StkPushResponse response_data),
                                          Print PaymentInitiatedSuccessfully],
                                  Inr (Some response_data))))))))"

section \<open>Sequences of calls on one instance\<close>




text \<open>The payloads of the push requests among the events of a call.\<close>

fun posted :: "event list \<Rightarrow> payload list" where
  "posted [] = []"
| "posted (HttpPost url token p # evs) = p # posted evs"
| "posted (ev # evs) = posted evs"

section \<open>Auxiliary notions for the statements\<close>


text \<open>
  The notices that only \<open>handle_payment_failure\<close> prints, one per call that returns.
\<close>

fun failure_notices :: "event list \<Rightarrow> notice list" where
  "failure_notices [] = []"
| "failure_notices (Print (GracePeriodStarted d) # evs) = GracePeriodStarted d # failure_notices evs"
| "failure_notices (Print (RetryUntil t) # evs) = RetryUntil t # failure_notices evs"
| "failure_notices (Print GracePeriodExpired # evs) = GracePeriodExpired # failure_notices evs"
| "failure_notices (ev # evs) = failure_notices evs"

text \<open>The values of the example at the end of \<open>app.py\<close>, with a gateway that answers.\<close>

abbreviation example_module :: payment_module where
  "example_module \<equiv>
     PaymentModule ''key'' ''secret'' ''600977'' ''passkey'' ''http://127.0.0.1:5000/callback''"

abbreviation example_token :: http_outcome where
  "example_token \<equiv>
     JsonBody (JDict [(''access_token'', JStr ''token''), (''expires_in'', JStr ''3599'')])"

abbreviation example_env :: "http_outcome \<Rightarrow> http_outcome \<Rightarrow> env" where
  "example_env token_outcome stk_outcome \<equiv>
     \<lparr>token_response = token_outcome, timestamp_now = ''20240101120000'',
      stk_response = stk_outcome, failure_now = 0\<rparr>"

section \<open>Facts about the tier table and the validations\<close>

lemma tier_key_cases:
  "SUBSCRIPTION_TIERS tier = Some details \<Longrightarrow>
     (tier = ''starter'' \<and> details = \<lparr>price = 100, limit = Some 10\<rparr>) \<or>
     (tier = ''pro'' \<and> details = \<lparr>price = 300, limit = Some 100\<rparr>) \<or>
     (tier = ''enterprise'' \<and> details = \<lparr>price = 500, limit = None\<rparr>)"
  by (simp add: SUBSCRIPTION_TIERS_def split: if_splits)

lemma lower_tier_key: "SUBSCRIPTION_TIERS tier = Some details \<Longrightarrow> lower tier = tier"
  by (auto dest!: tier_key_cases simp: lower_def to_lower_def is_upper_def)

lemma match_literal_iff: "match_literal p s = Some r \<longleftrightarrow> s = p @ r"
  by (induction p s rule: match_literal.induct) auto

lemma match_digits_eq:
  "match_digits n s =
     (if n \<le> length s \<and> list_all is_digit (take n s) then Some (drop n s) else None)"
  by (induction n s rule: match_digits.induct) auto

text \<open>
  The strings the pattern accepts: \<open>2547\<close> and eight digits, alone or followed by one
  newline.
\<close>

lemma pattern_match_iff:
  "pattern_match s \<longleftrightarrow>
     (\<exists>ds. length ds = 8 \<and> list_all is_digit ds \<and>
           (s = ''2547'' @ ds \<or> s = ''2547'' @ ds @ [CHR 0x0A]))"
proof
  assume "pattern_match s"
  then obtain r where s: "s = ''2547'' @ r" and len: "8 \<le> length r"
    and dig: "list_all is_digit (take 8 r)" and fin: "drop 8 r = [] \<or> drop 8 r = [CHR 0x0A]"
    unfolding pattern_match_def match_dollar_def
    by (auto simp: match_literal_iff match_digits_eq split: option.splits if_splits)
  have r: "r = take 8 r @ drop 8 r" by simp
  from len have "length (take 8 r) = 8" by simp
  moreover from s r fin have "s = ''2547'' @ take 8 r \<or> s = ''2547'' @ take 8 r @ [CHR 0x0A]"
    by (metis append_Nil2)
  ultimately show "\<exists>ds. length ds = 8 \<and> list_all is_digit ds \<and>
           (s = ''2547'' @ ds \<or> s = ''2547'' @ ds @ [CHR 0x0A])"
    using dig by blast
next
  assume "\<exists>ds. length ds = 8 \<and> list_all is_digit ds \<and>
           (s = ''2547'' @ ds \<or> s = ''2547'' @ ds @ [CHR 0x0A])"
  then show "pattern_match s"
    unfolding pattern_match_def match_dollar_def
    by (auto simp: match_literal_iff match_digits_eq split: option.splits if_splits)
qed

lemma validate_phone_number_True:
  "snd (validate_phone_number phone) = True \<Longrightarrow> validate_phone_number phone = ([], True)"
  by (auto simp: validate_phone_number_def split: if_splits)

lemma validate_branch_limit_True:
  assumes "snd (validate_branch_limit tier n) = Inr True"
  shows "validate_branch_limit tier n = ([], Inr True)"
    and "\<exists>details. SUBSCRIPTION_TIERS tier = Some details"
    and "n \<le> 10"
  using assms
  by (auto simp: validate_branch_limit_def MAX_BRANCHES_PER_ACTION_def
           split: if_splits option.splits)

lemma example_phone: "snd (validate_phone_number ''254727200114'') = True"
  by (simp add: validate_phone_number_def pattern_match_def match_dollar_def is_digit_def
        eval_nat_numeral)

lemma example_token_ok:
  "snd (get_access_token self (token_response (example_env example_token r)))
     = Inr (JStr ''token'')"
  by (simp add: get_access_token_def)

text \<open>
  An unknown tier name with at most ten branches never reaches the guard of lines 96-99:
  the lookup of line 76 raises first.
\<close>

lemma unknown_tier_KeyError:
  assumes "snd (validate_phone_number phone) = True"
    and "SUBSCRIPTION_TIERS tier = None" and "n \<le> 10"
  shows "initiate_payment self e phone tier n = (self, [], Inl KeyError)"
  using validate_phone_number_True[OF assms(1)] assms(2,3)
  by (simp add: initiate_payment_def validate_branch_limit_def MAX_BRANCHES_PER_ACTION_def)

section \<open>Facts about the failure policy\<close>





lemma hpf_posted: "posted (fst (snd (handle_payment_failure now self))) = []"
  by (auto simp: handle_payment_failure_def Let_def split: option.splits)







section \<open>Facts about the events of a call\<close>

lemma posted_append: "posted (xs @ ys) = posted xs @ posted ys"
  by (induction xs rule: posted.induct) auto


lemma get_access_token_events:
  "posted (fst (get_access_token self outcome)) = []"
  "failure_notices (fst (get_access_token self outcome)) = []"
  by (auto simp: get_access_token_def Let_def split: http_outcome.splits sum.splits)

lemma after_failure_simps:
  "fst (after_failure h out r) = fst h"
  "fst (snd (after_failure h out r)) = out @ fst (snd h)"
  "snd (snd h) = Inr () \<Longrightarrow> snd (snd (after_failure h out r)) = Inr r"
  by (auto simp: after_failure_def split: prod.splits sum.splits)


text \<open>
  The call from the push request on, once both validations and the token request have
  succeeded.
\<close>

lemma initiate_payment_push:
  assumes ph: "snd (validate_phone_number phone) = True"
    and br: "snd (validate_branch_limit tier n) = Inr True"
    and tier: "SUBSCRIPTION_TIERS tier = Some details"
    and tk: "get_access_token self (token_response e) = (out3, Inr tok)"
    and tr: "truthy tok"
  shows "initiate_payment self e phone tier n =
     (let request = HttpPost (stk_push_url self) tok
            \<lparr>BusinessShortCode = shortcode self,
             Password = generate_password self (timestamp_now e),
             Timestamp = timestamp_now e,
             TransactionType = ''CustomerBuyGoodsOnline'',
             Amount = price details + n * 100,
             PartyA = phone,
             PartyB = shortcode self,
             PhoneNumber = phone,
             CallBackURL = callback_url self,
             AccountReference = ''Vendor_'' @ phone,
             TransactionDesc = capitalize tier @ '' subscription with '' @ str_int n
                               @ '' branches''\<rparr>;
          out4 = out3 @ [request]
      in case stk_response e of
           RequestException \<Rightarrow>
             after_failure (handle_payment_failure (failure_now e) self)
               (out4 @ [Print ErrorInitiatingPayment]) None
         | JsonBody response_data \<Rightarrow>
             (case dict_get response_data ''ResponseCode'' of
                Inl err \<Rightarrow> (self, out4 @ [Print (StkPushResponse response_data)], Inl err)
              | Inr code \<Rightarrow>
                  if code \<noteq> JStr ''0''
                  then after_failure (handle_payment_failure (failure_now e) self)
                         (out4 @ [Print (StkPushResponse response_data)]) (Some response_data)
                  else (self,
                        out4 @ [Print (StkPushResponse response_data),
                                Print PaymentInitiatedSuccessfully],
                        Inr (Some response_data))))"
  using validate_phone_number_True[OF ph] validate_branch_limit_True(1)[OF br]
    lower_tier_key[OF tier] tier tk tr
  by (simp add: initiate_payment_def Let_def split: http_outcome.splits sum.splits)

lemma posted_initiate_payment:
  assumes ph: "snd (validate_phone_number phone) = True"
    and br: "snd (validate_branch_limit tier n) = Inr True"
    and tier: "SUBSCRIPTION_TIERS tier = Some details"
    and tk: "snd (get_access_token self (token_response e)) = Inr tok"
    and tr: "truthy tok"
  shows "\<exists>p. posted (fst (snd (initiate_payment self e phone tier n))) = [p] \<and>
             Amount p = price details + n * 100 \<and> PhoneNumber p = phone"
proof -
  obtain out3 where tk': "get_access_token self (token_response e) = (out3, Inr tok)"
    using tk by (cases "get_access_token self (token_response e)") auto
  have p3: "posted out3 = []"
    using get_access_token_events(1)[of self "token_response e"] tk' by simp
  show ?thesis
    unfolding initiate_payment_push[OF ph br tier tk' tr]
    by (simp add: Let_def after_failure_simps posted_append p3 hpf_posted
             split: http_outcome.splits sum.splits)
qed

section \<open>Facts about base64 and UTF-8\<close>

lemma b64_alphabet_distinct: "distinct b64_alphabet"
  by (simp add: b64_alphabet_def)

lemma b64_alphabet_length: "length b64_alphabet = 64"
  by (simp add: b64_alphabet_def)

lemma b64_value_char: "n < 64 \<Longrightarrow> b64_value (b64_char n) = Some n"
  unfolding b64_value_def b64_char_def
  using map_of_zip_nth[of b64_alphabet "[0..<64]" n]
  by (simp add: b64_alphabet_distinct b64_alphabet_length)

lemma b64_value_None: "b64_value c = None \<longleftrightarrow> c \<notin> set b64_alphabet"
proof -
  have "map fst (zip b64_alphabet [0..<64]) = b64_alphabet"
    by (simp add: b64_alphabet_length)
  then have "fst ` set (zip b64_alphabet [0..<64]) = set b64_alphabet"
    by (metis set_map)
  then show ?thesis
    unfolding b64_value_def by (simp add: map_of_eq_None_iff)
qed

lemma b64_value_pad: "b64_value (CHR ''='') = None"
  by (simp add: b64_value_None) (simp add: b64_alphabet_def)

lemma b64_char_not_pad: "n < 64 \<Longrightarrow> b64_char n \<noteq> CHR ''=''"
  using b64_value_char[of n] b64_value_pad by auto

lemma digits64:
  "n div 262144 * 262144 + n div 4096 mod 64 * 4096 + n div 64 mod 64 * 64 + n mod 64 = (n::nat)"
proof -
  define a where "a = n div 64"
  define b where "b = a div 64"
  define c where "c = b div 64"
  have b': "n div 4096 = b"
    unfolding b_def a_def by (simp add: div_mult2_eq[symmetric])
  have c': "n div 262144 = c"
    unfolding c_def b_def a_def by (simp add: div_mult2_eq[symmetric])
  have 1: "n = a * 64 + n mod 64" unfolding a_def by simp
  have 2: "a = b * 64 + a mod 64" unfolding b_def by simp
  have 3: "b = c * 64 + b mod 64" unfolding c_def by simp
  have "c * 262144 + b mod 64 * 4096 + a mod 64 * 64 + n mod 64 = n"
    using 1 2 3 by linarith
  then show ?thesis
    unfolding b' c' a_def[symmetric] .
qed

lemma digits64_pad1:
  "n mod 64 = 0 \<Longrightarrow>
   n div 262144 * 262144 + n div 4096 mod 64 * 4096 + n div 64 mod 64 * 64 = (n::nat)"
  using digits64[of n] by simp

lemma digits64_pad2:
  assumes "n mod 4096 = 0"
  shows "n div 262144 * 262144 + n div 4096 mod 64 * 4096 = (n::nat)"
proof -
  have "n mod 4096 = 64 * (n div 64 mod 64) + n mod 64"
    using mod_mult2_eq[of n 64 64] by simp
  with assms have "n div 64 mod 64 = 0" and "n mod 64 = 0"
    by simp_all
  with digits64[of n] show ?thesis by simp
qed

lemma b64decode_full:
  assumes "n < 16777216"
  shows "b64decode (b64_char (n div 262144) # b64_char (n div 4096 mod 64)
                    # b64_char (n div 64 mod 64) # b64_char (n mod 64) # rest)
         = map_option (\<lambda>bs. of_nat (n div 65536) # of_nat (n div 256 mod 256)
                              # of_nat (n mod 256) # bs) (b64decode rest)"
proof -
  from assms have "n div 262144 < 64" by simp
  then show ?thesis
    by (simp add: b64_value_char b64_char_not_pad digits64)
qed

lemma b64decode_pad1:
  assumes "n < 16777216" and "n mod 64 = 0"
  shows "b64decode [b64_char (n div 262144), b64_char (n div 4096 mod 64),
                    b64_char (n div 64 mod 64), CHR ''='']
         = Some [of_nat (n div 65536), of_nat (n div 256 mod 256)]"
proof -
  from assms have "n div 262144 < 64" by simp
  then show ?thesis
    using assms(2) by (simp add: b64_value_char b64_char_not_pad digits64_pad1)
qed

lemma b64decode_pad2:
  assumes "n < 16777216" and "n mod 4096 = 0"
  shows "b64decode [b64_char (n div 262144), b64_char (n div 4096 mod 64), CHR ''='', CHR ''='']
         = Some [of_nat (n div 65536)]"
proof -
  from assms have "n div 262144 < 64" by simp
  then show ?thesis
    using assms(2) by (simp add: b64_value_char digits64_pad2)
qed

lemma group3:
  fixes a b c :: nat
  assumes "a < 256" and "b < 256" and "c < 256"
  shows "a * 65536 + b * 256 + c < 16777216"
    and "(a * 65536 + b * 256 + c) div 65536 = a"
    and "(a * 65536 + b * 256 + c) div 256 mod 256 = b"
    and "(a * 65536 + b * 256 + c) mod 256 = c"
proof -
  have n: "a * 65536 + b * 256 + c = (a * 256 + b) * 256 + c"
    by simp
  show "a * 65536 + b * 256 + c < 16777216"
    using assms by linarith
  have d1: "((a * 256 + b) * 256 + c) div 256 = a * 256 + b"
    using assms(3) by simp
  have d2: "(a * 256 + b) div 256 = a"
    using assms(2) by simp
  have "(a * 65536 + b * 256 + c) div 65536 = ((a * 256 + b) * 256 + c) div 256 div 256"
    unfolding n by (simp add: div_mult2_eq[symmetric])
  then show "(a * 65536 + b * 256 + c) div 65536 = a"
    unfolding d1 d2 .
  show "(a * 65536 + b * 256 + c) div 256 mod 256 = b"
    unfolding n d1 using assms(2) by simp
  have "((a * 256 + b) * 256 + c) mod 256 = c"
    using assms(3) by (simp only: mod_mult_self3 mod_less)
  then show "(a * 65536 + b * 256 + c) mod 256 = c"
    by (simp only: n)
qed

lemma byte_bound: "unat (a :: byte) < 256"
  using unsigned_less[of a, where 'a = nat] by simp

text \<open>Decoding undoes encoding, for every list of bytes.\<close>

lemma b64_roundtrip: "b64decode (b64encode bs) = Some bs"
proof (induction bs rule: b64encode.induct)
  case (1 a b c bs)
  define n where "n = unat a * 65536 + unat b * 256 + unat c"
  note g = group3[OF byte_bound[of a] byte_bound[of b] byte_bound[of c], folded n_def]
  have enc: "b64encode (a # b # c # bs) =
        b64_char (n div 262144) # b64_char (n div 4096 mod 64)
          # b64_char (n div 64 mod 64) # b64_char (n mod 64) # b64encode bs"
    by (simp add: Let_def n_def)
  have "b64decode (b64encode (a # b # c # bs)) =
        map_option (\<lambda>bs'. of_nat (n div 65536) # of_nat (n div 256 mod 256)
                              # of_nat (n mod 256) # bs') (b64decode (b64encode bs))"
    unfolding enc by (rule b64decode_full[OF g(1)])
  also have "\<dots> = Some (a # b # c # bs)"
    unfolding g(2-4) "1.IH" by simp
  finally show ?case .
next
  case (2 a b)
  define n where "n = unat a * 65536 + unat b * 256"
  have n': "n = unat a * 65536 + unat b * 256 + 0"
    unfolding n_def by simp
  note g = group3[OF byte_bound[of a] byte_bound[of b], of 0, folded n', simplified]
  have "n = (unat a * 1024 + unat b * 4) * 64"
    unfolding n_def by simp
  then have m: "n mod 64 = 0"
    by (simp only: mod_mult_self2_is_0)
  have enc: "b64encode [a, b] =
        [b64_char (n div 262144), b64_char (n div 4096 mod 64),
         b64_char (n div 64 mod 64), CHR ''='']"
    by (simp add: Let_def n_def)
  have "b64decode (b64encode [a, b]) = Some [of_nat (n div 65536), of_nat (n div 256 mod 256)]"
    unfolding enc by (rule b64decode_pad1[OF g(1) m])
  also have "\<dots> = Some [a, b]"
    unfolding g(2-3) by simp
  finally show ?case .
next
  case (3 a)
  define n where "n = unat a * 65536"
  have n': "n = unat a * 65536 + 0 * 256 + 0"
    unfolding n_def by simp
  note g = group3[of "unat a" 0 0, OF byte_bound, folded n', simplified]
  have "n = (unat a * 16) * 4096"
    unfolding n_def by simp
  then have m: "n mod 4096 = 0"
    by (simp only: mod_mult_self2_is_0)
  have enc: "b64encode [a] =
        [b64_char (n div 262144), b64_char (n div 4096 mod 64), CHR ''='', CHR ''='']"
    by (simp add: Let_def n_def)
  have "b64decode (b64encode [a]) = Some [of_nat (n div 65536)]"
    unfolding enc by (rule b64decode_pad2[OF g(1) m])
  also have "\<dots> = Some [a]"
    unfolding g(2) by simp
  finally show ?case .
next
  case 4
  show ?case by simp
qed

lemma byte_of_nat: "k < 256 \<Longrightarrow> unat (of_nat k :: byte) = k"
  by (simp add: unat_of_nat)

lemma utf8_decode_one:
  assumes "k < 128"
  shows "utf8_decode (of_nat k # bs) = map_option (\<lambda>r. char_of k # r) (utf8_decode bs)"
proof -
  define b :: byte where "b = of_nat k"
  have u: "unat b = k"
    unfolding b_def using assms by (simp add: byte_of_nat)
  have "utf8_decode (b # bs) = map_option (\<lambda>r. char_of k # r) (utf8_decode bs)"
    using assms by (cases bs) (simp_all add: u)
  then show ?thesis
    unfolding b_def .
qed

lemma utf8_decode_two:
  assumes "128 \<le> k" and "k < 256"
  shows "utf8_decode (of_nat (192 + k div 64) # of_nat (128 + k mod 64) # bs)
     = map_option (\<lambda>r. char_of (k::nat) # r) (utf8_decode bs)"
proof -
  define b1 :: byte where "b1 = of_nat (192 + k div 64)"
  define b2 :: byte where "b2 = of_nat (128 + k mod 64)"
  have d: "k div 64 = 2 \<or> k div 64 = 3"
    using assms by linarith
  have u1: "unat b1 = 192 + k div 64"
    unfolding b1_def using d by (intro byte_of_nat) linarith
  have u2: "unat b2 = 128 + k mod 64"
    unfolding b2_def by (intro byte_of_nat) simp
  have k: "k div 64 * 64 + k mod 64 = k"
    by simp
  have "utf8_decode (b1 # b2 # bs) = map_option (\<lambda>r. char_of k # r) (utf8_decode bs)"
    using d k by (auto simp: u1 u2)
  then show ?thesis
    unfolding b1_def b2_def .
qed

lemma utf8_encode_low:
  "(of_char c :: nat) < 128 \<Longrightarrow> utf8_encode (c # cs) = of_nat (of_char c) # utf8_encode cs"
  by simp

lemma utf8_encode_high:
  "\<not> (of_char c :: nat) < 128 \<Longrightarrow>
   utf8_encode (c # cs) =
     of_nat (192 + of_char c div 64) # of_nat (128 + of_char c mod 64) # utf8_encode cs"
  by simp

lemma utf8_roundtrip: "utf8_decode (utf8_encode s) = Some s"
proof (induction s)
  case Nil
  show ?case by simp
next
  case (Cons c cs)
  show ?case
  proof (cases "(of_char c :: nat) < 128")
    case True
    have "utf8_decode (utf8_encode (c # cs))
            = map_option (\<lambda>r. char_of (of_char c :: nat) # r) (utf8_decode (utf8_encode cs))"
      unfolding utf8_encode_low[OF True] by (rule utf8_decode_one[OF True])
    then show ?thesis
      unfolding Cons.IH by simp
  next
    case False
    then have lo: "128 \<le> (of_char c :: nat)" by simp
    have hi: "(of_char c :: nat) < 256" by simp
    have "utf8_decode (utf8_encode (c # cs))
            = map_option (\<lambda>r. char_of (of_char c :: nat) # r) (utf8_decode (utf8_encode cs))"
      unfolding utf8_encode_high[OF False] by (rule utf8_decode_two[OF lo hi])
    then show ?thesis
      unfolding Cons.IH by simp
  qed
qed

section \<open>The failure policy as a state machine\<close>





section \<open>The push request and the failure policy\<close>





section \<open>Pricing and validation\<close>

text \<open>
  Claim C3. For every key of the tier table and every branch count from 0 to 10, a call
  of \<open>initiate_payment\<close> with a valid phone number that obtains a token sends one push
  request, and the \<open>Amount\<close> of its payload is the price of the tier plus 100 times the
  branch count, which is not negative.
\<close>

theorem total_amount_in_payload:
  assumes "SUBSCRIPTION_TIERS tier = Some details" and "0 \<le> n" and "n \<le> 10"
    and "snd (validate_phone_number phone) = True"
    and "snd (get_access_token self (token_response e)) = Inr tok" and "truthy tok"
  shows "\<exists>p. posted (fst (snd (initiate_payment self e phone tier n))) = [p] \<and>
             Amount p = price details + 100 * n \<and> 0 \<le> Amount p"
proof -
  have br: "snd (validate_branch_limit tier n) = Inr True"
    using assms(1-3) tier_key_cases[OF assms(1)]
    by (auto simp: validate_branch_limit_def MAX_BRANCHES_PER_ACTION_def)
  have "0 \<le> price details"
    using tier_key_cases[OF assms(1)] by auto
  with posted_initiate_payment[OF assms(4) br assms(1) assms(5) assms(6)] assms(2)
  show ?thesis by auto
qed

theorem total_amount_in_payload_witness:
  "\<exists>p. posted (fst (snd (initiate_payment example_module
          (example_env example_token (JsonBody (JDict [(''ResponseCode'', JStr ''0'')])))
          ''254727200114'' ''pro'' 5))) = [p] \<and> Amount p = 800 \<and> 0 \<le> Amount p"
proof -
  have t: "SUBSCRIPTION_TIERS ''pro'' = Some \<lparr>price = 300, limit = Some 100\<rparr>"
    by (simp add: SUBSCRIPTION_TIERS_def)
  have tr: "truthy (JStr ''token'')" by simp
  show ?thesis
    using total_amount_in_payload[OF t _ _ example_phone example_token_ok tr, of 5
             example_module "JsonBody (JDict [(''ResponseCode'', JStr ''0'')])"]
    by simp
qed

text \<open>
  Claim C6. For every key of the tier table and every branch count that is not negative,
  \<open>validate_branch_limit\<close> returns \<open>False\<close> exactly when the count is above 10 or the
  tier has a limit and the count is above it, and \<open>True\<close> otherwise. The starter tier
  passes with 10 and fails with 11, and the enterprise tier passes with every count up
  to 10.
\<close>

theorem validate_branch_limit_iff:
  assumes "SUBSCRIPTION_TIERS tier = Some details" and "0 \<le> count"
  shows "snd (validate_branch_limit tier count)
           = Inr (\<not> (count > 10 \<or> (\<exists>l. limit details = Some l \<and> count > l)))
       \<and> snd (validate_branch_limit ''starter'' 10) = Inr True
       \<and> snd (validate_branch_limit ''starter'' 11) = Inr False
       \<and> (count \<le> 10 \<longrightarrow> snd (validate_branch_limit ''enterprise'' count) = Inr True)"
  using assms
  by (auto simp: validate_branch_limit_def MAX_BRANCHES_PER_ACTION_def SUBSCRIPTION_TIERS_def
           split: option.splits)

theorem validate_branch_limit_iff_witness:
  "snd (validate_branch_limit ''pro'' 11) = Inr False \<and>
   snd (validate_branch_limit ''enterprise'' 10) = Inr True"
proof -
  have t: "SUBSCRIPTION_TIERS ''pro'' = Some \<lparr>price = 300, limit = Some 100\<rparr>"
    by (simp add: SUBSCRIPTION_TIERS_def)
  have t2: "SUBSCRIPTION_TIERS ''enterprise'' = Some \<lparr>price = 500, limit = None\<rparr>"
    by (simp add: SUBSCRIPTION_TIERS_def)
  show ?thesis
    using validate_branch_limit_iff[OF t, of 11] validate_branch_limit_iff[OF t2, of 10]
    by simp
qed

text \<open>
  Claim C10. For every key of the tier table and every negative branch count,
  \<open>validate_branch_limit\<close> returns \<open>True\<close>; a call of \<open>initiate_payment\<close> with a
  valid phone number that obtains a token then sends a push request whose \<open>Amount\<close> is
  the price of the tier plus 100 times the count, below the price of the tier. The
  starter tier with the count -2 gives the amount -100.
\<close>

theorem negative_branch_count_accepted:
  assumes "SUBSCRIPTION_TIERS tier = Some details" and "n < 0"
  shows "snd (validate_branch_limit tier n) = Inr True \<and>
         (snd (validate_phone_number phone) = True \<and>
          snd (get_access_token self (token_response e)) = Inr tok \<and> truthy tok \<longrightarrow>
          (\<exists>p. posted (fst (snd (initiate_payment self e phone tier n))) = [p] \<and>
               Amount p = price details + 100 * n \<and> Amount p < price details))"
proof -
  have br: "snd (validate_branch_limit tier n) = Inr True"
    using assms tier_key_cases[OF assms(1)]
    by (auto simp: validate_branch_limit_def MAX_BRANCHES_PER_ACTION_def)
  show ?thesis
    using br posted_initiate_payment[OF _ br assms(1), of phone self e tok] assms(2)
    by auto
qed

theorem negative_branch_count_accepted_witness:
  "snd (validate_branch_limit ''starter'' (- 2)) = Inr True \<and>
   (\<exists>p. posted (fst (snd (initiate_payment example_module
          (example_env example_token (JsonBody (JDict [(''ResponseCode'', JStr ''0'')])))
          ''254727200114'' ''starter'' (- 2)))) = [p] \<and>
        Amount p = - 100 \<and> Amount p < 100)"
proof -
  have t: "SUBSCRIPTION_TIERS ''starter'' = Some \<lparr>price = 100, limit = Some 10\<rparr>"
    by (simp add: SUBSCRIPTION_TIERS_def)
  have tr: "truthy (JStr ''token'')" by simp
  show ?thesis
    using negative_branch_count_accepted[OF t, of "- 2" "''254727200114''" example_module
             "example_env example_token (JsonBody (JDict [(''ResponseCode'', JStr ''0'')]))"
             "JStr ''token''"] example_phone example_token_ok[of example_module] tr
    by simp
qed

text \<open>
  Claim C5, which says that every string other than \<open>2547\<close> and eight digits is
  rejected. The pattern ends in \<open>$\<close>, so the thirteen characters made of a valid number
  and one newline are accepted as well: \<open>validate_phone_number\<close> returns \<open>True\<close> on
  them and prints nothing.
\<close>

theorem validate_phone_number_accepts_trailing_newline:
  "validate_phone_number (''254712345678'' @ [CHR 0x0A]) = ([], True)
   \<and> length (''254712345678'' @ [CHR 0x0A]) = 13"
  by (simp add: validate_phone_number_def pattern_match_def match_dollar_def is_digit_def
        eval_nat_numeral)

text \<open>
  Claim C4, which says that an unknown tier name makes \<open>initiate_payment\<close> return
  \<open>None\<close> with a diagnostic. With the valid phone number \<open>254712345678\<close>, the tier name
  \<open>gold\<close> and no branches, the lookup inside \<open>validate_branch_limit\<close> raises
  \<open>KeyError\<close>: the call prints nothing, sends nothing and returns nothing.
\<close>

theorem initiate_payment_unknown_tier_raises:
  "initiate_payment self e ''254712345678'' ''gold'' 0 = (self, [], Inl KeyError)"
  by (simp add: initiate_payment_def validate_phone_number_def pattern_match_def
        match_dollar_def is_digit_def eval_nat_numeral validate_branch_limit_def
        MAX_BRANCHES_PER_ACTION_def SUBSCRIPTION_TIERS_def)

section \<open>The password round trip\<close>

text \<open>
  Claim C9. For every shortcode, passkey and timestamp string, decoding the base64 text
  that \<open>generate_password\<close> returns gives the UTF-8 bytes of the shortcode, the
  passkey and that timestamp joined in this order, and decoding these bytes gives the
  joined string itself. The result is a value computed from these three strings alone:
  two instances with the same shortcode and passkey give the same password, and the
  function returns nothing but the password.
\<close>

theorem generate_password_roundtrip:
  "b64decode (generate_password self timestamp)
     = Some (utf8_encode (shortcode self @ passkey self @ timestamp)) \<and>
   Option.bind (b64decode (generate_password self timestamp)) utf8_decode
     = Some (shortcode self @ passkey self @ timestamp) \<and>
   (shortcode self' = shortcode self \<and> passkey self' = passkey self \<longrightarrow>
      generate_password self' timestamp = generate_password self timestamp)"
  by (simp add: generate_password_def b64_roundtrip utf8_roundtrip)

theorem generate_password_roundtrip_witness:
  "Option.bind (b64decode (generate_password example_module ''20240101120000'')) utf8_decode
     = Some ''600977passkey20240101120000'' \<and>
   generate_password (fst (handle_payment_failure 0 example_module)) ''20240101120000''
     = generate_password example_module ''20240101120000''"
proof -
  have same: "shortcode (fst (handle_payment_failure 0 example_module)) = shortcode example_module \<and>
      passkey (fst (handle_payment_failure 0 example_module)) = passkey example_module"
    by (simp add: handle_payment_failure_def PaymentModule_def)
  have joined: "shortcode example_module @ passkey example_module @ ''20240101120000''
      = ''600977passkey20240101120000''"
    by (simp add: PaymentModule_def)
  note r = generate_password_roundtrip
             [of example_module "''20240101120000''"
                 "fst (handle_payment_failure 0 example_module)"]
  from r have 1: "Option.bind (b64decode (generate_password example_module ''20240101120000''))
        utf8_decode = Some ''600977passkey20240101120000''"
    unfolding joined by blast
  from r same have 2:
    "generate_password (fst (handle_payment_failure 0 example_module)) ''20240101120000''
       = generate_password example_module ''20240101120000''"
    by blast
  from 1 2 show ?thesis by blast
qed

end
